theory Spec2Isabelle
  imports Main "HOL-Library.Sublist"
begin

section \<open>Python values and string helpers\<close>

text \<open>
  The agents pass plain Python dicts around.  A field value of a topic candidate is one of
  the scalars below; a dict is an association list in insertion order, read with
  \<open>dict_get\<close> (Python's \<open>d.get(k, default)\<close>).  A topic is text over the
  code points below 256, one \<open>char\<close> per character: \<open>str.lower()\<close> maps A to Z and the
  capitals U+00C0 to U+00DE (but not the sign U+00D7) to the letter 32 places up, and
  \<open>str.split()\<close> splits at the ASCII white space and at U+0085 and U+00A0.
\<close>

datatype pyval = PyNone | PyInt int | PyStr string

datatype py_error = AttributeError | TypeError | IndexError | KeyError

type_synonym pydict = "(string \<times> pyval) list"

definition dict_get :: "pydict \<Rightarrow> string \<Rightarrow> pyval \<Rightarrow> pyval" where
  "dict_get d k dflt = (case map_of d k of None \<Rightarrow> dflt | Some v \<Rightarrow> v)"

definition upper_letters :: string where
  "upper_letters =
     ''ABCDEFGHIJKLMNOPQRSTUVWXYZ''
     @ [CHR 0xC0, CHR 0xC1, CHR 0xC2, CHR 0xC3, CHR 0xC4, CHR 0xC5, CHR 0xC6, CHR 0xC7,
        CHR 0xC8, CHR 0xC9, CHR 0xCA, CHR 0xCB, CHR 0xCC, CHR 0xCD, CHR 0xCE, CHR 0xCF,
        CHR 0xD0, CHR 0xD1, CHR 0xD2, CHR 0xD3, CHR 0xD4, CHR 0xD5, CHR 0xD6, CHR 0xD8,
        CHR 0xD9, CHR 0xDA, CHR 0xDB, CHR 0xDC, CHR 0xDD, CHR 0xDE]"

definition lower_letters :: string where
  "lower_letters =
     ''abcdefghijklmnopqrstuvwxyz''
     @ [CHR 0xE0, CHR 0xE1, CHR 0xE2, CHR 0xE3, CHR 0xE4, CHR 0xE5, CHR 0xE6, CHR 0xE7,
        CHR 0xE8, CHR 0xE9, CHR 0xEA, CHR 0xEB, CHR 0xEC, CHR 0xED, CHR 0xEE, CHR 0xEF,
        CHR 0xF0, CHR 0xF1, CHR 0xF2, CHR 0xF3, CHR 0xF4, CHR 0xF5, CHR 0xF6, CHR 0xF8,
        CHR 0xF9, CHR 0xFA, CHR 0xFB, CHR 0xFC, CHR 0xFD, CHR 0xFE]"

definition lower_char :: "char \<Rightarrow> char" where
  "lower_char c = (case map_of (zip upper_letters lower_letters) c of None \<Rightarrow> c | Some l \<Rightarrow> l)"

definition lower :: "string \<Rightarrow> string" where
  "lower s = map lower_char s"

definition isspace :: "char \<Rightarrow> bool" where
  "isspace c \<longleftrightarrow>
     c \<in> set [CHR '' '', CHR 0x09, CHR 0x0A, CHR 0x0B, CHR 0x0C, CHR 0x0D,
               CHR 0x1C, CHR 0x1D, CHR 0x1E, CHR 0x1F, CHR 0x85, CHR 0xA0]"

text \<open>\<open>str.split()\<close> without arguments: maximal runs of non-whitespace characters.\<close>

fun split_from :: "string \<Rightarrow> string \<Rightarrow> string list" where
  "split_from cur [] = (if cur = [] then [] else [cur])"
| "split_from cur (c # cs) =
     (if isspace c then (if cur = [] then split_from [] cs else cur # split_from [] cs)
      else split_from (cur @ [c]) cs)"

definition py_split :: "string \<Rightarrow> string list" where
  "py_split s = split_from [] s"

section \<open>Trend ranker (agents/trend_agent.py)\<close>

text \<open>
  \<open>config.LOCATION\<close>: the fields the ranker reads (\<open>name\<close> and \<open>keywords\<close>).
\<close>

record location =
  loc_name :: string
  loc_keywords :: "string list"

definition LOCATION :: location where
  "LOCATION = \<lparr> loc_name = ''Tunis'',
                loc_keywords = [''Tunis travel'', ''Tunisia tourism'', ''visit Tunis'',
                            ''things to do in Tunis'', ''Tunis hidden gems''] \<rparr>"

text \<open>
  A value of the \<open>all_trends\<close> dict is a list of candidate dicts or something that is
  not a list; \<open>analyze_and_rank_trends\<close> skips the latter (\<open>isinstance(source_list, list)\<close>).
\<close>

datatype source_val = SourceList "pydict list" | NotList pyval

type_synonym trends = "(string \<times> source_val) list"

fun flatten :: "source_val list \<Rightarrow> pydict list" where
  "flatten [] = []"
| "flatten (SourceList xs # rest) = xs @ flatten rest"
| "flatten (NotList v # rest) = flatten rest"

text \<open>The comparison key \<open>topic.lower()[:80]\<close>.\<close>

definition topic_key :: "string \<Rightarrow> string" where
  "topic_key t = take 80 (lower t)"

definition counter_get :: "(string \<rightharpoonup> int) \<Rightarrow> string \<Rightarrow> int \<Rightarrow> int" where
  "counter_get m k dflt = (case m k of None \<Rightarrow> dflt | Some v \<Rightarrow> v)"

text \<open>The inner loop \<open>for word in topic.lower().split(): if len(word) > 4: word_counter[word] += 1\<close>.\<close>

fun count_words :: "string list \<Rightarrow> (string \<rightharpoonup> int) \<Rightarrow> (string \<rightharpoonup> int)" where
  "count_words [] wc = wc"
| "count_words (w # ws) wc =
     count_words ws (if length w > 4 then wc(w \<mapsto> counter_get wc w 0 + 1) else wc)"

text \<open>
  The first loop over \<open>flat\<close> (lines 357-365), threading \<open>word_counter\<close> and
  \<open>topic_scores\<close>.  \<open>topic.lower()\<close> raises AttributeError unless the topic is a string;
  adding the score to an integer raises TypeError unless the score is an integer.
\<close>

fun score_loop ::
  "pydict list \<Rightarrow> (string \<rightharpoonup> int) \<Rightarrow> (string \<rightharpoonup> int) \<Rightarrow>
     py_error + ((string \<rightharpoonup> int) \<times> (string \<rightharpoonup> int))" where
  "score_loop [] word_counter topic_scores = Inr (word_counter, topic_scores)"
| "score_loop (item # rest) word_counter topic_scores =
     (case dict_get item ''topic'' (PyStr '''') of
        PyStr topic \<Rightarrow>
          (case dict_get item ''score'' (PyInt 50) of
             PyInt score \<Rightarrow>
               (let key = topic_key topic;
                    topic_scores' = topic_scores(key \<mapsto> counter_get topic_scores key 0 + score);
                    word_counter' = count_words (py_split (lower topic)) word_counter
                in score_loop rest word_counter' topic_scores')
           | _ \<Rightarrow> Inl TypeError)
      | _ \<Rightarrow> Inl AttributeError)"

text \<open>
  The dicts built by the second loop (lines 375-379) always have the three keys
  \<open>topic\<close> (a string), \<open>score\<close> (an integer) and \<open>source\<close>.
\<close>

record ranked_item =
  topic :: string
  score :: int
  source :: pyval

definition freq_bonus :: "(string \<rightharpoonup> int) \<Rightarrow> string \<Rightarrow> int" where
  "freq_bonus word_counter key =
     sum_list (map (\<lambda>w. counter_get word_counter w 0)
                   (filter (\<lambda>w. length w > 4) (py_split key)))"

fun bonus_loop ::
  "pydict list \<Rightarrow> (string \<rightharpoonup> int) \<Rightarrow> (string \<rightharpoonup> int) \<Rightarrow> py_error + ranked_item list" where
  "bonus_loop [] word_counter topic_scores = Inr []"
| "bonus_loop (item # rest) word_counter topic_scores =
     (case dict_get item ''topic'' (PyStr '''') of
        PyStr t \<Rightarrow>
          (let key = topic_key t;
               base_score = counter_get topic_scores key 50;
               final_score = base_score + freq_bonus word_counter key;
               r = \<lparr> topic = t, score = final_score,
                     source = dict_get item ''source'' (PyStr ''unknown'') \<rparr>
           in case bonus_loop rest word_counter topic_scores of
                Inl e \<Rightarrow> Inl e
              | Inr rs \<Rightarrow> Inr (r # rs))
      | _ \<Rightarrow> Inl AttributeError)"

text \<open>
  \<open>sorted(ranked_items, key=lambda x: x["score"], reverse=True)\<close>: Python's sort is stable,
  also with \<open>reverse=True\<close>, so items of equal score keep their order.
\<close>

definition sorted_by_score_desc :: "ranked_item list \<Rightarrow> ranked_item list" where
  "sorted_by_score_desc xs = sort_key (\<lambda>x. - score x) xs"

text \<open>The last loop (lines 384-390), with its \<open>break\<close> once three items are kept.\<close>

fun unique_loop :: "ranked_item list \<Rightarrow> string set \<Rightarrow> ranked_item list \<Rightarrow> ranked_item list" where
  "unique_loop [] seen_topics unique_ranked = unique_ranked"
| "unique_loop (item # rest) seen_topics unique_ranked =
     (let key = topic_key (topic item);
          new = key \<notin> seen_topics;
          seen_topics' = (if new then insert key seen_topics else seen_topics);
          unique_ranked' = (if new then unique_ranked @ [item] else unique_ranked)
      in if length unique_ranked' \<ge> 3 then unique_ranked'
         else unique_loop rest seen_topics' unique_ranked')"

definition as_dict :: "ranked_item \<Rightarrow> pydict" where
  "as_dict r = [(''topic'', PyStr (topic r)), (''score'', PyInt (score r)), (''source'', source r)]"

definition default_topics :: "location \<Rightarrow> pydict list" where
  "default_topics loc =
     map (\<lambda>kw. [(''topic'', PyStr kw), (''score'', PyInt 50)]) (take 3 (loc_keywords loc))"

text \<open>
  \<open>analyze_and_rank_trends\<close>.  The log line before the return reads \<open>unique_ranked[0]\<close>,
  which would raise IndexError on an empty list.
\<close>

definition analyze_and_rank_trends :: "location \<Rightarrow> trends \<Rightarrow> py_error + pydict list" where
  "analyze_and_rank_trends loc all_trends =
     (let flat = flatten (map snd all_trends) in
      if flat = [] then Inr (default_topics loc)
      else
        (case score_loop flat Map.empty Map.empty of
           Inl e \<Rightarrow> Inl e
         | Inr (word_counter, topic_scores) \<Rightarrow>
             (case bonus_loop flat word_counter topic_scores of
                Inl e \<Rightarrow> Inl e
              | Inr ranked_items \<Rightarrow>
                  (case unique_loop (sorted_by_score_desc ranked_items) {} [] of
                     [] \<Rightarrow> Inl IndexError
                   | best # others \<Rightarrow> Inr (map as_dict (best # others))))))"

text \<open>
  \<open>get_best_topic\<close>: \<open>ranked[0]["topic"] if ranked else self.location["keywords"][0]\<close>.
  A value that is not a list is falsy when it is None, 0 or the empty string, and cannot
  be indexed into a dict otherwise.
\<close>

definition truthy :: "pyval \<Rightarrow> bool" where
  "truthy v = (case v of PyNone \<Rightarrow> False | PyInt n \<Rightarrow> n \<noteq> 0 | PyStr s \<Rightarrow> s \<noteq> [])"

definition first_keyword :: "location \<Rightarrow> py_error + pyval" where
  "first_keyword loc = (case loc_keywords loc of [] \<Rightarrow> Inl IndexError | kw # _ \<Rightarrow> Inr (PyStr kw))"

definition get_best_topic :: "location \<Rightarrow> trends \<Rightarrow> py_error + pyval" where
  "get_best_topic loc trends =
     (case map_of trends ''ranked'' of
        None \<Rightarrow> first_keyword loc
      | Some (SourceList []) \<Rightarrow> first_keyword loc
      | Some (SourceList (first # _)) \<Rightarrow>
          (case map_of first ''topic'' of None \<Rightarrow> Inl KeyError | Some t \<Rightarrow> Inr t)
      | Some (NotList v) \<Rightarrow> (if truthy v then Inl TypeError else first_keyword loc))"

subsection \<open>The ranking as the specification words it\<close>

text \<open>
  The topic and raw score of a well-formed candidate (a missing score is 50), the words
  longer than four characters of a text, and the comparison key of a candidate.
\<close>

definition candidate_topic :: "pydict \<Rightarrow> string" where
  "candidate_topic c = (case dict_get c ''topic'' (PyStr '''') of PyStr t \<Rightarrow> t | _ \<Rightarrow> '''')"

definition raw_score :: "pydict \<Rightarrow> int" where
  "raw_score c = (case dict_get c ''score'' (PyInt 50) of PyInt n \<Rightarrow> n | _ \<Rightarrow> 50)"

text \<open>A candidate that the first loop accepts: the topic is missing or a string, the score is
  missing or an integer.\<close>

definition well_formed :: "pydict \<Rightarrow> bool" where
  "well_formed c \<longleftrightarrow>
     (case dict_get c ''topic'' (PyStr '''') of PyStr t \<Rightarrow> True | _ \<Rightarrow> False)
     \<and> (case dict_get c ''score'' (PyInt 50) of PyInt n \<Rightarrow> True | _ \<Rightarrow> False)"

definition long_words :: "string \<Rightarrow> string list" where
  "long_words s = filter (\<lambda>w. length w > 4) (py_split s)"

definition comparison_key :: "pydict \<Rightarrow> string" where
  "comparison_key c = take 80 (lower (candidate_topic c))"

text \<open>The summed raw scores of the candidates that share the comparison key of \<open>c\<close>.\<close>

definition spec_aggregate :: "pydict list \<Rightarrow> pydict \<Rightarrow> int" where
  "spec_aggregate flat c =
     sum_list (map raw_score (filter (\<lambda>d. comparison_key d = comparison_key c) flat))"

text \<open>How often a word occurs among the long words of all topics, and the bonus earned by
  the long words of a text.\<close>

definition spec_occurrences :: "pydict list \<Rightarrow> string \<Rightarrow> int" where
  "spec_occurrences flat w =
     int (count_list (concat (map (\<lambda>d. long_words (lower (candidate_topic d))) flat)) w)"

definition bonus_over :: "pydict list \<Rightarrow> string \<Rightarrow> int" where
  "bonus_over flat text = sum_list (map (spec_occurrences flat) (long_words text))"

definition spec_bonus :: "pydict list \<Rightarrow> pydict \<Rightarrow> int" where
  "spec_bonus flat c = bonus_over flat (lower (candidate_topic c))"

text \<open>The candidate with its final score; the bonus is over the words of its own topic.\<close>

definition spec_scored :: "pydict list \<Rightarrow> pydict \<Rightarrow> ranked_item" where
  "spec_scored flat c =
     \<lparr> topic = candidate_topic c, score = spec_aggregate flat c + spec_bonus flat c,
       source = dict_get c ''source'' (PyStr ''unknown'') \<rparr>"

text \<open>Keeping the first item of every comparison key.\<close>

fun first_per_key :: "string set \<Rightarrow> ranked_item list \<Rightarrow> ranked_item list" where
  "first_per_key seen [] = []"
| "first_per_key seen (x # xs) =
     (if topic_key (topic x) \<in> seen then first_per_key seen xs
      else x # first_per_key (insert (topic_key (topic x)) seen) xs)"

text \<open>Stable sort by final score, descending; first item per key; at most three.\<close>

definition spec_rank :: "pydict list \<Rightarrow> pydict list" where
  "spec_rank flat =
     map as_dict (take 3 (first_per_key {} (sort_key (\<lambda>r. - score r) (map (spec_scored flat) flat))))"

text \<open>The same with the bonus over the words of the comparison key, as the second loop
  computes it.\<close>

definition code_scored :: "pydict list \<Rightarrow> pydict \<Rightarrow> ranked_item" where
  "code_scored flat c =
     \<lparr> topic = candidate_topic c,
       score = spec_aggregate flat c + bonus_over flat (comparison_key c),
       source = dict_get c ''source'' (PyStr ''unknown'') \<rparr>"

section \<open>File deduplication (utils/file_manager.py)\<close>

text \<open>
  The file system maps a path to the bytes of the file; a path that is not mapped cannot be
  opened or read, and \<open>file_hash\<close> raises there.  The digest function (MD5 in the source)
  is a parameter.
\<close>

type_synonym path = string
type_synonym filesystem = "path \<rightharpoonup> string"

datatype io_error = OSError

definition file_hash :: "filesystem \<Rightarrow> (string \<Rightarrow> 'h) \<Rightarrow> path \<Rightarrow> io_error + 'h" where
  "file_hash fs md5 p = (case fs p of None \<Rightarrow> Inl OSError | Some bytes \<Rightarrow> Inr (md5 bytes))"

text \<open>The loop of \<open>deduplicate_files\<close>, threading \<open>seen\<close> and \<open>unique\<close>.\<close>

fun dedup_loop ::
  "filesystem \<Rightarrow> (string \<Rightarrow> 'h) \<Rightarrow> path list \<Rightarrow> 'h set \<Rightarrow> path list \<Rightarrow> path list" where
  "dedup_loop fs md5 [] seen unique = unique"
| "dedup_loop fs md5 (p # ps) seen unique =
     (case file_hash fs md5 p of
        Inr h \<Rightarrow>
          (if h \<notin> seen then dedup_loop fs md5 ps (insert h seen) (unique @ [p])
           else dedup_loop fs md5 ps seen unique)
      | Inl exc \<Rightarrow> dedup_loop fs md5 ps seen (unique @ [p]))"

definition deduplicate_files :: "filesystem \<Rightarrow> (string \<Rightarrow> 'h) \<Rightarrow> path list \<Rightarrow> path list" where
  "deduplicate_files fs md5 paths = dedup_loop fs md5 paths {} []"

text \<open>
  The positions the specification keeps: a file that cannot be hashed, or the first file
  with its hash.
\<close>

definition kept_position :: "filesystem \<Rightarrow> (string \<Rightarrow> 'h) \<Rightarrow> path list \<Rightarrow> nat \<Rightarrow> bool" where
  "kept_position fs md5 paths i \<longleftrightarrow>
     (case file_hash fs md5 (paths ! i) of
        Inl exc \<Rightarrow> True
      | Inr h \<Rightarrow> \<forall>j < i. file_hash fs md5 (paths ! j) \<noteq> Inr h)"

text \<open>
  The same loop without the accumulator, and the kept positions relative to a set of
  hashes already seen; both serve the proofs below.
\<close>

fun keep :: "filesystem \<Rightarrow> (string \<Rightarrow> 'h) \<Rightarrow> 'h set \<Rightarrow> path list \<Rightarrow> path list" where
  "keep fs md5 seen [] = []"
| "keep fs md5 seen (p # ps) =
     (case file_hash fs md5 p of
        Inl exc \<Rightarrow> p # keep fs md5 seen ps
      | Inr h \<Rightarrow> if h \<in> seen then keep fs md5 seen ps else p # keep fs md5 (insert h seen) ps)"

definition kept_from :: "filesystem \<Rightarrow> (string \<Rightarrow> 'h) \<Rightarrow> 'h set \<Rightarrow> path list \<Rightarrow> nat \<Rightarrow> bool" where
  "kept_from fs md5 seen ps i \<longleftrightarrow>
     (case file_hash fs md5 (ps ! i) of
        Inl exc \<Rightarrow> True
      | Inr h \<Rightarrow> h \<notin> seen \<and> (\<forall>j < i. file_hash fs md5 (ps ! j) \<noteq> Inr h))"

section \<open>Publisher (agents/publisher_agent.py)\<close>

subsection \<open>Retry loop\<close>

record config =
  YOUTUBE_CLIENT_ID :: string
  YOUTUBE_CLIENT_SECRET :: string
  YOUTUBE_REFRESH_TOKEN :: string
  INSTAGRAM_ACCESS_TOKEN :: string
  INSTAGRAM_PAGE_ID :: string
  FACEBOOK_ACCESS_TOKEN :: string
  FACEBOOK_PAGE_ID :: string
  TELEGRAM_BOT_TOKEN :: string
  TELEGRAM_CHANNEL_ID :: string

definition MAX_RETRIES :: nat where
  "MAX_RETRIES = 3"

definition RETRY_DELAY :: nat where
  "RETRY_DELAY = 5"

text \<open>
  What a publish operation does, in order: entering the \<open>try\<close> block of an attempt (the
  platform call), \<open>time.sleep\<close> with its number of seconds, and the log lines of the
  operation itself: the warning when credentials are missing, the warning after a failed
  attempt, the info line after a successful one and the error after the last attempt.
  Lines logged by helpers inside the \<open>try\<close> block are not recorded.
\<close>

datatype event =
    Attempt nat | Sleep nat
  | LogSkipped | LogAttemptFailed nat | LogPublished | LogFailedAfterRetries

text \<open>
  The \<open>for attempt in range(1, MAX_RETRIES + 1)\<close> loop shared by the four publish
  operations.  \<open>call attempt\<close> is the outcome of the \<open>try\<close> block of that attempt:
  \<open>Inl\<close> the exception raised by the first failing call in it, \<open>Inr\<close> the value it
  returns.
\<close>

fun retry_loop :: "(nat \<Rightarrow> string + 'r) \<Rightarrow> nat list \<Rightarrow> 'r option \<times> event list" where
  "retry_loop call [] = (None, [LogFailedAfterRetries])"
| "retry_loop call (attempt # rest) =
     (case call attempt of
        Inr result \<Rightarrow> (Some result, [Attempt attempt, LogPublished])
      | Inl exc \<Rightarrow>
          (let (result, events) = retry_loop call rest
           in (result,
               [Attempt attempt, LogAttemptFailed attempt]
               @ (if attempt < MAX_RETRIES then [Sleep (RETRY_DELAY * attempt)] else [])
               @ events)))"

definition publish_to_youtube :: "config \<Rightarrow> (nat \<Rightarrow> string + string) \<Rightarrow> string option \<times> event list" where
  "publish_to_youtube cfg call =
     (if \<not> (YOUTUBE_CLIENT_ID cfg \<noteq> [] \<and> YOUTUBE_CLIENT_SECRET cfg \<noteq> []
             \<and> YOUTUBE_REFRESH_TOKEN cfg \<noteq> [])
      then (None, [LogSkipped])
      else retry_loop call [1 ..< MAX_RETRIES + 1])"

definition publish_to_instagram :: "config \<Rightarrow> (nat \<Rightarrow> string + string) \<Rightarrow> string option \<times> event list" where
  "publish_to_instagram cfg call =
     (if \<not> (INSTAGRAM_ACCESS_TOKEN cfg \<noteq> [] \<and> INSTAGRAM_PAGE_ID cfg \<noteq> [])
      then (None, [LogSkipped])
      else retry_loop call [1 ..< MAX_RETRIES + 1])"

definition publish_to_facebook :: "config \<Rightarrow> (nat \<Rightarrow> string + string) \<Rightarrow> string option \<times> event list" where
  "publish_to_facebook cfg call =
     (if \<not> (FACEBOOK_ACCESS_TOKEN cfg \<noteq> [] \<and> FACEBOOK_PAGE_ID cfg \<noteq> [])
      then (None, [LogSkipped])
      else retry_loop call [1 ..< MAX_RETRIES + 1])"

text \<open>\<open>channel = channel_id or config.TELEGRAM_CHANNEL_ID\<close>: None and the empty string are falsy.\<close>

definition publish_to_telegram ::
  "config \<Rightarrow> string option \<Rightarrow> (nat \<Rightarrow> string + int) \<Rightarrow> int option \<times> event list" where
  "publish_to_telegram cfg channel_id call =
     (let token = TELEGRAM_BOT_TOKEN cfg;
          channel = (case channel_id of
                       None \<Rightarrow> TELEGRAM_CHANNEL_ID cfg
                     | Some c \<Rightarrow> if c = [] then TELEGRAM_CHANNEL_ID cfg else c)
      in if token = [] \<or> channel = [] then (None, [LogSkipped])
         else retry_loop call [1 ..< MAX_RETRIES + 1])"

subsection \<open>JSON payloads\<close>

text \<open>
  The values a content payload is made of, and the documents of the JSON data model.
  \<open>json.dumps\<close> writes a tuple as an array and raises TypeError on an object it does not
  know (here a \<open>pathlib.Path\<close>); \<open>json.loads\<close> reads an array as a list and an object as a
  dict in which a repeated key keeps its first position and its last value.  A queue file
  holds a JSON document or text that does not parse; the text of a document is not
  modelled.  Dict keys are strings; floats are left out.
\<close>

datatype payload =
    PNone | PBool bool | PInt int | PStr string
  | PList "payload list" | PTuple "payload list"
  | PDict "(string \<times> payload) list"
  | PPath string

datatype json =
    JNull | JBool bool | JInt int | JStr string
  | JArr "json list"
  | JObj "(string \<times> json) list"

fun dumps :: "payload \<Rightarrow> py_error + json"
  and dumps_list :: "payload list \<Rightarrow> py_error + json list"
  and dumps_items :: "(string \<times> payload) list \<Rightarrow> py_error + (string \<times> json) list" where
  "dumps PNone = Inr JNull"
| "dumps (PBool b) = Inr (JBool b)"
| "dumps (PInt n) = Inr (JInt n)"
| "dumps (PStr s) = Inr (JStr s)"
| "dumps (PList xs) = (case dumps_list xs of Inl e \<Rightarrow> Inl e | Inr js \<Rightarrow> Inr (JArr js))"
| "dumps (PTuple xs) = (case dumps_list xs of Inl e \<Rightarrow> Inl e | Inr js \<Rightarrow> Inr (JArr js))"
| "dumps (PDict kvs) = (case dumps_items kvs of Inl e \<Rightarrow> Inl e | Inr js \<Rightarrow> Inr (JObj js))"
| "dumps (PPath p) = Inl TypeError"
| "dumps_list [] = Inr []"
| "dumps_list (x # xs) =
     (case dumps x of
        Inl e \<Rightarrow> Inl e
      | Inr j \<Rightarrow> (case dumps_list xs of Inl e \<Rightarrow> Inl e | Inr js \<Rightarrow> Inr (j # js)))"
| "dumps_items [] = Inr []"
| "dumps_items ((k, v) # kvs) =
     (case dumps v of
        Inl e \<Rightarrow> Inl e
      | Inr j \<Rightarrow> (case dumps_items kvs of Inl e \<Rightarrow> Inl e | Inr js \<Rightarrow> Inr ((k, j) # js)))"

text \<open>\<open>d[k] = v\<close> on an insertion-ordered dict.\<close>

fun dict_set :: "(string \<times> 'v) list \<Rightarrow> string \<Rightarrow> 'v \<Rightarrow> (string \<times> 'v) list" where
  "dict_set [] k v = [(k, v)]"
| "dict_set ((k', v') # d) k v = (if k' = k then (k, v) # d else (k', v') # dict_set d k v)"

fun loads :: "json \<Rightarrow> payload"
  and loads_list :: "json list \<Rightarrow> payload list"
  and loads_items :: "(string \<times> json) list \<Rightarrow> (string \<times> payload) list \<Rightarrow> (string \<times> payload) list" where
  "loads JNull = PNone"
| "loads (JBool b) = PBool b"
| "loads (JInt n) = PInt n"
| "loads (JStr s) = PStr s"
| "loads (JArr js) = PList (loads_list js)"
| "loads (JObj kjs) = PDict (loads_items kjs [])"
| "loads_list [] = []"
| "loads_list (j # js) = loads j # loads_list js"
| "loads_items [] d = d"
| "loads_items ((k, j) # kjs) d = loads_items kjs (dict_set d k (loads j))"

subsection \<open>Scheduled-post queue\<close>

datatype file_text = Document json | Unparsable

record disk =
  QUEUE_FILE :: "file_text option"

text \<open>\<open>_load_queue\<close>: the parsed file, or an empty dict when the file is missing or does not parse.\<close>

definition load_queue :: "disk \<Rightarrow> payload" where
  "load_queue d =
     (case QUEUE_FILE d of
        Some (Document j) \<Rightarrow> loads j
      | _ \<Rightarrow> PDict [])"

text \<open>\<open>_save_queue\<close>: \<open>json.dumps\<close> runs before \<open>write_text\<close>, so a payload that cannot be
  serialised leaves the file as it was.\<close>

definition save_queue :: "disk \<Rightarrow> payload \<Rightarrow> py_error + disk" where
  "save_queue d queue =
     (case dumps queue of
        Inl e \<Rightarrow> Inl e
      | Inr j \<Rightarrow> Inr (d\<lparr>QUEUE_FILE := Some (Document j)\<rparr>))"

text \<open>
  \<open>schedule_post\<close>.  The two renderings of \<open>publish_time\<close>
  (\<open>strftime('%Y%m%d_%H%M%S')\<close> and \<open>isoformat()\<close>) are passed in.  Item assignment on a
  loaded value that is not a dict raises TypeError.
\<close>

definition schedule_post ::
  "disk \<Rightarrow> string \<Rightarrow> payload \<Rightarrow> string \<Rightarrow> string \<Rightarrow> py_error + (string \<times> disk)" where
  "schedule_post d platform content timestamp isoformat =
     (let queue = load_queue d;
          entry_id = platform @ ''_'' @ timestamp;
          entry = PDict [(''platform'', PStr platform), (''content'', content),
                         (''publish_time'', PStr isoformat), (''status'', PStr ''pending'')]
      in case queue of
           PDict kvs \<Rightarrow>
             (case save_queue d (PDict (dict_set kvs entry_id entry)) of
                Inl e \<Rightarrow> Inl e
              | Inr d' \<Rightarrow> Inr (entry_id, d'))
         | _ \<Rightarrow> Inl TypeError)"

text \<open>Reading a key of the reloaded queue.\<close>

definition queue_entry :: "disk \<Rightarrow> string \<Rightarrow> payload option" where
  "queue_entry d entry_id =
     (case load_queue d of PDict kvs \<Rightarrow> map_of kvs entry_id | _ \<Rightarrow> None)"

text \<open>A payload that JSON represents as it is: no tuple, no foreign object, and dicts
  with pairwise different keys (as every Python dict has).\<close>

fun json_native :: "payload \<Rightarrow> bool"
  and json_native_list :: "payload list \<Rightarrow> bool"
  and json_native_items :: "(string \<times> payload) list \<Rightarrow> bool" where
  "json_native PNone = True"
| "json_native (PBool b) = True"
| "json_native (PInt n) = True"
| "json_native (PStr s) = True"
| "json_native (PList xs) = json_native_list xs"
| "json_native (PTuple xs) = False"
| "json_native (PDict kvs) = (distinct (map fst kvs) \<and> json_native_items kvs)"
| "json_native (PPath p) = False"
| "json_native_list [] = True"
| "json_native_list (x # xs) = (json_native x \<and> json_native_list xs)"
| "json_native_items [] = True"
| "json_native_items ((k, v) # kvs) = (json_native v \<and> json_native_items kvs)"

section \<open>Analytics store (agents/analytics_agent.py)\<close>

text \<open>
  The \<open>performance\<close> table of \<open>_init_db\<close>: an AUTOINCREMENT primary key \<open>id\<close>, the
  columns \<open>platform\<close>, \<open>post_id\<close>, \<open>date\<close>, \<open>metrics_json\<close>, \<open>topic\<close>, and
  \<open>UNIQUE(platform, post_id, date)\<close>.  The database is the list of rows in insertion order
  and the last id given out.
\<close>

record performance_row =
  row_id :: nat
  row_platform :: string
  row_post_id :: string
  row_date :: string
  row_metrics_json :: json
  row_topic :: string

record database =
  performance :: "performance_row list"
  last_id :: nat

definition unique_key :: "performance_row \<Rightarrow> string \<times> string \<times> string" where
  "unique_key r = (row_platform r, row_post_id r, row_date r)"

text \<open>\<open>_init_db\<close>: \<open>CREATE TABLE IF NOT EXISTS\<close> makes an empty table in a new database file
  and leaves an existing one alone.\<close>

definition init_db :: "database option \<Rightarrow> database" where
  "init_db file = (case file of None \<Rightarrow> \<lparr> performance = [], last_id = 0 \<rparr> | Some db \<Rightarrow> db)"

text \<open>
  SQLite's \<open>INSERT OR REPLACE\<close> with no id given: the rows that conflict with the new one on
  the UNIQUE constraint are deleted, then the new row is inserted under a fresh id.
\<close>

definition insert_or_replace ::
  "database \<Rightarrow> string \<Rightarrow> string \<Rightarrow> string \<Rightarrow> json \<Rightarrow> string \<Rightarrow> database" where
  "insert_or_replace db pf pid day mj tp =
     (let new_id = last_id db + 1;
          row = \<lparr> row_id = new_id, row_platform = pf, row_post_id = pid, row_date = day,
                  row_metrics_json = mj, row_topic = tp \<rparr>
      in \<lparr> performance = filter (\<lambda>r. unique_key r \<noteq> (pf, pid, day)) (performance db) @ [row],
           last_id = new_id \<rparr>)"

text \<open>
  \<open>store_metrics\<close>.  \<open>today\<close> is \<open>datetime.now().strftime("%Y-%m-%d")\<close>; \<open>sqlite_ok\<close> says
  whether connecting, executing and committing succeed.  Any exception (also the TypeError
  of \<open>json.dumps\<close>) is caught: the call returns False and the transaction is not committed.
\<close>

definition store_metrics ::
  "database \<Rightarrow> bool \<Rightarrow> string \<Rightarrow> string \<Rightarrow> string \<Rightarrow> payload \<Rightarrow> string \<Rightarrow> bool \<times> database" where
  "store_metrics db sqlite_ok today pf pid metrics tp =
     (if \<not> sqlite_ok then (False, db)
      else case dumps metrics of
             Inl e \<Rightarrow> (False, db)
           | Inr mj \<Rightarrow> (True, insert_or_replace db pf pid today mj tp))"

text \<open>A sequence of \<open>store_metrics\<close> calls, each with its clock reading and its outcome.\<close>

record store_call =
  call_ok :: bool
  call_today :: string
  call_platform :: string
  call_post_id :: string
  call_metrics :: payload
  call_topic :: string

fun store_all :: "database \<Rightarrow> store_call list \<Rightarrow> database" where
  "store_all db [] = db"
| "store_all db (c # cs) =
     store_all (snd (store_metrics db (call_ok c) (call_today c) (call_platform c)
                       (call_post_id c) (call_metrics c) (call_topic c))) cs"

section \<open>Ranking of trend candidates\<close>

text \<open>
  What the code computes on every well-formed input, and its agreement with the
  specified ranking when no topic is longer than 80 characters.
\<close>

lemma count_words_get:
  "counter_get (count_words ws wc) w 0
   = counter_get wc w 0 + int (count_list (filter (\<lambda>v. 4 < length v) ws) w)"
  by (induction ws arbitrary: wc) (auto simp: counter_get_def)

lemma well_formed_fields:
  assumes "well_formed c"
  shows "dict_get c ''topic'' (PyStr '''') = PyStr (candidate_topic c)"
    and "dict_get c ''score'' (PyInt 50) = PyInt (raw_score c)"
  using assms
  by (auto simp: well_formed_def candidate_topic_def raw_score_def split: pyval.splits)

lemma score_loop_step:
  assumes "well_formed c"
  shows "score_loop (c # rest) wc ts
         = score_loop rest (count_words (py_split (lower (candidate_topic c))) wc)
             (ts(comparison_key c \<mapsto> counter_get ts (comparison_key c) 0 + raw_score c))"
  by (simp add: well_formed_fields [OF assms] Let_def comparison_key_def topic_key_def)

lemma spec_occurrences_Cons:
  "spec_occurrences (c # rest) w
   = int (count_list (long_words (lower (candidate_topic c))) w) + spec_occurrences rest w"
  by (simp add: spec_occurrences_def)

lemma score_loop_result:
  assumes "\<forall>c \<in> set flat. well_formed c"
  shows "\<exists>wc' ts'. score_loop flat wc ts = Inr (wc', ts')
           \<and> (\<forall>w. counter_get wc' w 0 = counter_get wc w 0 + spec_occurrences flat w)
           \<and> (\<forall>k. counter_get ts' k 0
                    = counter_get ts k 0
                      + sum_list (map raw_score (filter (\<lambda>d. comparison_key d = k) flat)))
           \<and> (\<forall>k. ts' k = None \<longleftrightarrow> ts k = None \<and> k \<notin> comparison_key ` set flat)"
  using assms
proof (induction flat arbitrary: wc ts)
  case Nil
  then show ?case by (simp add: spec_occurrences_def)
next
  case (Cons c rest)
  let ?wc1 = "count_words (py_split (lower (candidate_topic c))) wc"
  let ?ts1 = "ts(comparison_key c \<mapsto> counter_get ts (comparison_key c) 0 + raw_score c)"
  from Cons.prems have wf: "well_formed c" and rest: "\<forall>c \<in> set rest. well_formed c"
    by simp_all
  from Cons.IH [OF rest, of ?wc1 ?ts1] obtain wc' ts' where
    run: "score_loop rest ?wc1 ?ts1 = Inr (wc', ts')"
    and words: "\<And>w. counter_get wc' w 0 = counter_get ?wc1 w 0 + spec_occurrences rest w"
    and scores: "\<And>k. counter_get ts' k 0
                    = counter_get ?ts1 k 0
                      + sum_list (map raw_score (filter (\<lambda>d. comparison_key d = k) rest))"
    and dom: "\<And>k. ts' k = None \<longleftrightarrow> ?ts1 k = None \<and> k \<notin> comparison_key ` set rest"
    by blast
  have 1: "score_loop (c # rest) wc ts = Inr (wc', ts')"
    using run by (simp only: score_loop_step [OF wf])
  have 2: "counter_get wc' w 0 = counter_get wc w 0 + spec_occurrences (c # rest) w" for w
    by (simp add: words count_words_get spec_occurrences_Cons long_words_def)
  have 3: "counter_get ts' k 0
            = counter_get ts k 0
              + sum_list (map raw_score (filter (\<lambda>d. comparison_key d = k) (c # rest)))" for k
  proof -
    have "counter_get ?ts1 k 0
          = (if k = comparison_key c then counter_get ts k 0 + raw_score c else counter_get ts k 0)"
      by (simp add: counter_get_def)
    with scores [of k] show ?thesis by auto
  qed
  have 4: "ts' k = None \<longleftrightarrow> ts k = None \<and> k \<notin> comparison_key ` set (c # rest)" for k
    by (auto simp: dom)
  from 1 2 3 4 show ?case by blast
qed

lemma bonus_loop_result:
  assumes "\<forall>c \<in> set xs. well_formed c"
  shows "bonus_loop xs wc ts
         = Inr (map (\<lambda>c. \<lparr> topic = candidate_topic c,
                            score = counter_get ts (comparison_key c) 50
                                    + freq_bonus wc (comparison_key c),
                            source = dict_get c ''source'' (PyStr ''unknown'') \<rparr>) xs)"
  using assms
proof (induction xs)
  case Nil
  then show ?case by simp
next
  case (Cons c xs)
  then have "well_formed c" by simp
  from well_formed_fields(1) [OF this] Cons show ?case
    by (simp add: Let_def comparison_key_def topic_key_def)
qed

lemma unique_loop_take:
  "length unique_ranked < 3 \<Longrightarrow>
   unique_loop xs seen unique_ranked = take 3 (unique_ranked @ first_per_key seen xs)"
proof (induction xs arbitrary: seen unique_ranked)
  case Nil
  then show ?case by simp
next
  case (Cons x xs)
  show ?case
  proof (cases "topic_key (topic x) \<in> seen")
    case True
    with Cons show ?thesis by (simp add: Let_def)
  next
    case False
    show ?thesis
    proof (cases "length unique_ranked = 2")
      case True
      with False show ?thesis by (simp add: Let_def)
    next
      case short: False
      with Cons.prems have "length (unique_ranked @ [x]) < 3" by simp
      from Cons.IH [OF this, of "insert (topic_key (topic x)) seen"] False short Cons.prems
      show ?thesis by (simp add: Let_def)
    qed
  qed
qed

lemma analyze_and_rank_trends_computes:
  assumes ne: "flatten (map snd all_trends) \<noteq> []"
    and wf: "\<forall>c \<in> set (flatten (map snd all_trends)). well_formed c"
  shows "analyze_and_rank_trends loc all_trends
         = Inr (map as_dict (take 3 (first_per_key {}
                 (sort_key (\<lambda>r. - score r)
                    (map (code_scored (flatten (map snd all_trends)))
                         (flatten (map snd all_trends)))))))"
proof -
  let ?flat = "flatten (map snd all_trends)"
  from score_loop_result [OF wf, of Map.empty Map.empty] obtain wc' ts' where
    run: "score_loop ?flat Map.empty Map.empty = Inr (wc', ts')"
    and words: "\<And>w. counter_get wc' w 0 = spec_occurrences ?flat w"
    and scores: "\<And>k. counter_get ts' k 0
                    = sum_list (map raw_score (filter (\<lambda>d. comparison_key d = k) ?flat))"
    and dom: "\<And>k. ts' k = None \<longleftrightarrow> k \<notin> comparison_key ` set ?flat"
    by (auto simp: counter_get_def)
  have same: "\<lparr> topic = candidate_topic c,
                 score = counter_get ts' (comparison_key c) 50 + freq_bonus wc' (comparison_key c),
                 source = dict_get c ''source'' (PyStr ''unknown'') \<rparr> = code_scored ?flat c"
    if "c \<in> set ?flat" for c
  proof -
    from that dom [of "comparison_key c"] have "ts' (comparison_key c) \<noteq> None" by blast
    then have "counter_get ts' (comparison_key c) 50 = counter_get ts' (comparison_key c) 0"
      by (auto simp: counter_get_def)
    then have "counter_get ts' (comparison_key c) 50 = spec_aggregate ?flat c"
      by (simp add: scores spec_aggregate_def)
    moreover have "freq_bonus wc' (comparison_key c) = bonus_over ?flat (comparison_key c)"
      by (simp add: freq_bonus_def bonus_over_def long_words_def words)
    ultimately show ?thesis by (simp add: code_scored_def)
  qed
  have items: "bonus_loop ?flat wc' ts' = Inr (map (code_scored ?flat) ?flat)"
    unfolding bonus_loop_result [OF wf]
    using same by (simp cong: map_cong)
  from ne obtain r rs where sorted: "sort_key (\<lambda>r. - score r) (map (code_scored ?flat) ?flat) = r # rs"
    by (cases "sort_key (\<lambda>r. - score r) (map (code_scored ?flat) ?flat)")
       (auto dest: arg_cong [where f = length])
  then obtain best others where
    kept: "take 3 (first_per_key {} (sort_key (\<lambda>r. - score r) (map (code_scored ?flat) ?flat)))
           = best # others"
    by simp
  show ?thesis
    using ne run items kept
    by (simp add: analyze_and_rank_trends_def sorted_by_score_desc_def unique_loop_take Let_def)
qed

lemma short_topic_key:
  "length (candidate_topic c) \<le> 80 \<Longrightarrow> comparison_key c = lower (candidate_topic c)"
  by (simp add: comparison_key_def lower_def)

lemma analyze_and_rank_trends_short_topics:
  assumes ne: "flatten (map snd all_trends) \<noteq> []"
    and wf: "\<forall>c \<in> set (flatten (map snd all_trends)). well_formed c"
    and short: "\<forall>c \<in> set (flatten (map snd all_trends)). length (candidate_topic c) \<le> 80"
  shows "analyze_and_rank_trends loc all_trends = Inr (spec_rank (flatten (map snd all_trends)))"
proof -
  let ?flat = "flatten (map snd all_trends)"
  have "map (code_scored ?flat) ?flat = map (spec_scored ?flat) ?flat"
    using short by (simp add: code_scored_def spec_scored_def spec_bonus_def short_topic_key)
  with analyze_and_rank_trends_computes [OF ne wf, of loc] show ?thesis
    by (simp add: spec_rank_def)
qed

text \<open>
  C1.  The specification gives each candidate the summed raw scores of its comparison key
  plus, for every word longer than four characters of its own topic, that word's count
  over all topics (\<open>spec_rank\<close>).  The code takes the words of the bonus from the
  comparison key, the first 80 characters of the lower-cased topic, while it counts words
  over whole topics.  For a single news title of 101 characters the code returns the
  score 73 (65 plus the eight long words of the first 80 characters, where "beach" is cut
  to "beac"), and the specified ranking has 76 (65 plus all eleven long words).
\<close>

theorem long_topic_bonus_truncated:
  "analyze_and_rank_trends LOCATION
     [(''news'', SourceList
        [[(''topic'', PyStr ''Tunisia tourism revenue climbs as European visitors return to Mediterranean beach resorts this summer''),
          (''score'', PyInt 65), (''source'', PyStr ''newsapi'')]])]
   = Inr [[(''topic'', PyStr ''Tunisia tourism revenue climbs as European visitors return to Mediterranean beach resorts this summer''),
           (''score'', PyInt 73), (''source'', PyStr ''newsapi'')]]
   \<and> spec_rank
        [[(''topic'', PyStr ''Tunisia tourism revenue climbs as European visitors return to Mediterranean beach resorts this summer''),
          (''score'', PyInt 65), (''source'', PyStr ''newsapi'')]]
     = [[(''topic'', PyStr ''Tunisia tourism revenue climbs as European visitors return to Mediterranean beach resorts this summer''),
         (''score'', PyInt 76), (''source'', PyStr ''newsapi'')]]"
  by code_simp

section \<open>Ranking with no candidates\<close>

text \<open>
  C2.  When the flattened candidate list is empty, \<open>analyze_and_rank_trends\<close> does not raise
  and returns the default list: one entry for each of the first three configured location
  keywords, each with score 50 (so at most three entries).
\<close>

theorem no_candidates_gives_default_keywords:
  assumes "flatten (map snd all_trends) = []"
  shows "analyze_and_rank_trends loc all_trends
           = Inr (map (\<lambda>kw. [(''topic'', PyStr kw), (''score'', PyInt 50)]) (take 3 (loc_keywords loc)))
         \<and> (\<forall>r. analyze_and_rank_trends loc all_trends = Inr r \<longrightarrow> length r \<le> 3)"
  using assms by (simp add: analyze_and_rank_trends_def default_topics_def)

theorem no_candidates_gives_default_keywords_witness:
  "flatten (map snd [(''google'', SourceList []), (''reddit'', NotList PyNone)]) = []
   \<and> analyze_and_rank_trends LOCATION [(''google'', SourceList []), (''reddit'', NotList PyNone)]
       = Inr [[(''topic'', PyStr ''Tunis travel''), (''score'', PyInt 50)],
              [(''topic'', PyStr ''Tunisia tourism''), (''score'', PyInt 50)],
              [(''topic'', PyStr ''visit Tunis''), (''score'', PyInt 50)]]"
proof -
  have h: "flatten (map snd [(''google'', SourceList []), (''reddit'', NotList PyNone)]) = []"
    by simp
  from no_candidates_gives_default_keywords [OF h, of LOCATION] h show ?thesis
    by (simp add: LOCATION_def)
qed

section \<open>End-to-end ranking scenario\<close>

text \<open>
  C3.  For the input with the google list holding the single candidate "Tunis beaches"
  (score 80) and the reddit list holding the single candidate "Tunis beaches are amazing"
  (score 60), the ranked output has "Tunis beaches" as its top entry (final score 84),
  ahead of the other topic (final score 65).
\<close>

theorem tunis_beaches_ranked_first:
  "analyze_and_rank_trends LOCATION
     [(''google'', SourceList [[(''topic'', PyStr ''Tunis beaches''), (''score'', PyInt 80)]]),
      (''reddit'', SourceList [[(''topic'', PyStr ''Tunis beaches are amazing''), (''score'', PyInt 60)]])]
   = Inr [[(''topic'', PyStr ''Tunis beaches''), (''score'', PyInt 84), (''source'', PyStr ''unknown'')],
          [(''topic'', PyStr ''Tunis beaches are amazing''), (''score'', PyInt 65), (''source'', PyStr ''unknown'')]]"
  by code_simp

section \<open>Default score\<close>

lemma flatten_append: "flatten (xs @ ys) = flatten xs @ flatten ys"
  by (induction xs rule: flatten.induct) auto

lemma dict_get_with_default_score:
  assumes "map_of c ''score'' = None"
  shows "dict_get (c @ [(''score'', PyInt 50)]) ''topic'' d = dict_get c ''topic'' d"
    and "dict_get (c @ [(''score'', PyInt 50)]) ''source'' d = dict_get c ''source'' d"
    and "dict_get (c @ [(''score'', PyInt 50)]) ''score'' (PyInt 50) = dict_get c ''score'' (PyInt 50)"
  using assms by (simp_all add: dict_get_def map_add_def split: option.splits)

lemma score_loop_default:
  assumes "map_of c ''score'' = None"
  shows "score_loop (xs @ c # ys) wc ts = score_loop (xs @ (c @ [(''score'', PyInt 50)]) # ys) wc ts"
proof (induction xs arbitrary: wc ts)
  case Nil
  show ?case by (simp add: dict_get_with_default_score [OF assms] split: pyval.splits)
next
  case (Cons x xs)
  then show ?case by (simp split: pyval.splits)
qed

lemma bonus_loop_default:
  assumes "map_of c ''score'' = None"
  shows "bonus_loop (xs @ c # ys) wc ts = bonus_loop (xs @ (c @ [(''score'', PyInt 50)]) # ys) wc ts"
proof (induction xs)
  case Nil
  show ?case by (simp add: dict_get_with_default_score [OF assms] split: pyval.splits)
next
  case (Cons x xs)
  then show ?case by (simp split: pyval.splits)
qed

text \<open>
  C4 (amended).  A candidate whose dict has no "score" key is ranked exactly as if it
  carried the score 50: replacing it by the same candidate with score 50 leaves the
  result of \<open>analyze_and_rank_trends\<close> unchanged (so the ranker raises on the one input
  only if it raises on the other).
\<close>

theorem missing_score_defaults_to_50:
  assumes "map_of c ''score'' = None"
  shows "analyze_and_rank_trends loc (pre @ (k, SourceList (xs @ c # ys)) # post)
         = analyze_and_rank_trends loc
             (pre @ (k, SourceList (xs @ (c @ [(''score'', PyInt 50)]) # ys)) # post)"
proof -
  let ?p = "flatten (map snd pre) @ xs" and ?s = "ys @ flatten (map snd post)"
  have a: "flatten (map snd (pre @ (k, SourceList (xs @ c # ys)) # post)) = ?p @ c # ?s"
    by (simp add: flatten_append)
  have b: "flatten (map snd (pre @ (k, SourceList (xs @ (c @ [(''score'', PyInt 50)]) # ys)) # post))
           = ?p @ (c @ [(''score'', PyInt 50)]) # ?s"
    by (simp add: flatten_append)
  have c: "(?p @ c # ?s = []) = (?p @ (c @ [(''score'', PyInt 50)]) # ?s = [])"
    by simp
  show ?thesis
    unfolding analyze_and_rank_trends_def a b Let_def c
      score_loop_default [OF assms, of ?p ?s] bonus_loop_default [OF assms, of ?p ?s]
    by (rule refl)
qed

theorem missing_score_defaults_to_50_witness:
  "analyze_and_rank_trends LOCATION
     [(''google'', SourceList [[(''topic'', PyStr ''Tunis beaches'')]])]
   = Inr [[(''topic'', PyStr ''Tunis beaches''), (''score'', PyInt 52), (''source'', PyStr ''unknown'')]]"
proof -
  have m: "map_of [(''topic'', PyStr ''Tunis beaches'')] ''score'' = None" by simp
  have "analyze_and_rank_trends LOCATION
     [(''google'', SourceList [[(''topic'', PyStr ''Tunis beaches''), (''score'', PyInt 50)]])]
   = Inr [[(''topic'', PyStr ''Tunis beaches''), (''score'', PyInt 52), (''source'', PyStr ''unknown'')]]"
    by code_simp
  with missing_score_defaults_to_50 [OF m, of LOCATION "[]" "''google''" "[]" "[]" "[]"]
  show ?thesis by simp
qed

text \<open>
  The default applies to a missing key only: a score that is present but empty (None)
  is added to an integer and raises TypeError.
\<close>

theorem empty_score_raises_counterexample:
  "analyze_and_rank_trends LOCATION
     [(''google'', SourceList [[(''topic'', PyStr ''Tunis beaches''), (''score'', PyNone)]])]
   = Inl TypeError"
  by (simp add: analyze_and_rank_trends_def dict_get_def)

section \<open>Deduplication of files\<close>

lemma dedup_loop_keep: "dedup_loop fs md5 ps seen unique = unique @ keep fs md5 seen ps"
  by (induction ps arbitrary: seen unique) (auto split: sum.splits)

lemma deduplicate_files_keep: "deduplicate_files fs md5 ps = keep fs md5 {} ps"
  by (simp add: deduplicate_files_def dedup_loop_keep)

lemma keep_idem: "keep fs md5 seen (keep fs md5 seen ps) = keep fs md5 seen ps"
  by (induction ps arbitrary: seen) (auto split: sum.splits)

lemma keep_subseq: "subseq (keep fs md5 seen ps) ps"
  by (induction ps arbitrary: seen) (auto split: sum.splits)

lemma keep_unhashable:
  "filter (\<lambda>p. fs p = None) (keep fs md5 seen ps) = filter (\<lambda>p. fs p = None) ps"
  by (induction ps arbitrary: seen) (auto simp: file_hash_def split: sum.splits option.splits)

lemma nths_Cons_set:
  "nths (x # xs) A = (if 0 \<in> A then [x] else []) @ nths xs {i. Suc i \<in> A}"
  by (simp add: nths_Cons)

lemma keep_nths: "keep fs md5 seen ps = nths ps {i. i < length ps \<and> kept_from fs md5 seen ps i}"
proof (induction ps arbitrary: seen)
  case Nil
  then show ?case by simp
next
  case (Cons p ps)
  show ?case
  proof (cases "file_hash fs md5 p")
    case (Inl e)
    have "{i. Suc i < length (p # ps) \<and> kept_from fs md5 seen (p # ps) (Suc i)}
          = {i. i < length ps \<and> kept_from fs md5 seen ps i}"
      using Inl by (auto simp: kept_from_def All_less_Suc2 split: sum.splits)
    moreover have "kept_from fs md5 seen (p # ps) 0" using Inl by (simp add: kept_from_def)
    ultimately show ?thesis using Inl Cons.IH [of seen] by (simp add: nths_Cons_set)
  next
    case (Inr h)
    show ?thesis
    proof (cases "h \<in> seen")
      case True
      have "{i. Suc i < length (p # ps) \<and> kept_from fs md5 seen (p # ps) (Suc i)}
          = {i. i < length ps \<and> kept_from fs md5 seen ps i}"
        using Inr True by (auto simp: kept_from_def All_less_Suc2 split: sum.splits)
      moreover have "\<not> kept_from fs md5 seen (p # ps) 0" using Inr True by (simp add: kept_from_def)
      ultimately show ?thesis using Inr True Cons.IH [of seen] by (simp add: nths_Cons_set)
    next
      case False
      have "{i. Suc i < length (p # ps) \<and> kept_from fs md5 seen (p # ps) (Suc i)}
          = {i. i < length ps \<and> kept_from fs md5 (insert h seen) ps i}"
        using Inr False by (auto simp: kept_from_def All_less_Suc2 split: sum.splits)
      moreover have "kept_from fs md5 seen (p # ps) 0" using Inr False by (simp add: kept_from_def)
      ultimately show ?thesis using Inr False Cons.IH [of "insert h seen"] by (simp add: nths_Cons_set)
    qed
  qed
qed

lemma nths_restrict: "nths xs {i. i < length xs \<and> P i} = nths xs {i. P i}"
  by (auto simp: nths_def intro!: arg_cong [where f = "map fst"] filter_cong dest: set_zip_rightD)

text \<open>
  C5.  \<open>deduplicate_files\<close> keeps exactly the files at the positions that hold the first
  occurrence of a content hash or a file whose hashing raises; the kept files stay in their
  original order (the output is a subsequence of the input); every file that cannot be
  hashed is retained; and for [A, B, A, C] with A, B, C of different content (and no MD5
  collision among them) the output is [A, B, C].
\<close>

theorem deduplicate_files_keeps_first_occurrences:
  "deduplicate_files fs md5 paths = nths paths {i. kept_position fs md5 paths i}
   \<and> subseq (deduplicate_files fs md5 paths) paths
   \<and> filter (\<lambda>p. fs p = None) (deduplicate_files fs md5 paths) = filter (\<lambda>p. fs p = None) paths
   \<and> (fs a = Some ca \<and> fs b = Some cb \<and> fs c = Some cc \<and> distinct [ca, cb, cc]
        \<and> inj_on md5 {ca, cb, cc}
      \<longrightarrow> deduplicate_files fs md5 [a, b, a, c] = [a, b, c])"
proof -
  have "kept_from fs md5 {} paths = kept_position fs md5 paths"
    by (auto simp: kept_from_def kept_position_def fun_eq_iff split: sum.splits)
  then have positions: "deduplicate_files fs md5 paths = nths paths {i. kept_position fs md5 paths i}"
    using keep_nths [of fs md5 "{}" paths] nths_restrict [of paths "kept_position fs md5 paths"]
    by (simp add: deduplicate_files_keep)
  have order: "subseq (deduplicate_files fs md5 paths) paths"
    by (simp add: deduplicate_files_keep keep_subseq)
  have retained: "filter (\<lambda>p. fs p = None) (deduplicate_files fs md5 paths)
                  = filter (\<lambda>p. fs p = None) paths"
    by (simp add: deduplicate_files_keep keep_unhashable)
  have example: "deduplicate_files fs md5 [a, b, a, c] = [a, b, c]"
    if h: "fs a = Some ca \<and> fs b = Some cb \<and> fs c = Some cc \<and> distinct [ca, cb, cc]
        \<and> inj_on md5 {ca, cb, cc}"
  proof -
    from h have "md5 ca \<noteq> md5 cb" "md5 ca \<noteq> md5 cc" "md5 cb \<noteq> md5 cc"
      by (auto simp: inj_on_def)
    with h show ?thesis
      by (simp add: deduplicate_files_def file_hash_def)
  qed
  from positions order retained example show ?thesis
    by blast
qed

theorem deduplicate_files_keeps_first_occurrences_witness:
  "deduplicate_files [''a.jpg'' \<mapsto> ''AAA'', ''b.jpg'' \<mapsto> ''BB'', ''c.jpg'' \<mapsto> ''C''] (\<lambda>bytes. bytes)
     [''a.jpg'', ''b.jpg'', ''a.jpg'', ''c.jpg''] = [''a.jpg'', ''b.jpg'', ''c.jpg'']"
  using deduplicate_files_keeps_first_occurrences
    [of "[''a.jpg'' \<mapsto> ''AAA'', ''b.jpg'' \<mapsto> ''BB'', ''c.jpg'' \<mapsto> ''C'']" "\<lambda>bytes. bytes" "[]"
        "''a.jpg''" "''AAA''" "''b.jpg''" "''BB''" "''c.jpg''" "''C''"]
  by (simp add: inj_on_def)

text \<open>
  C6.  \<open>deduplicate_files\<close> is idempotent: with the file contents unchanged between the two
  calls, deduplicating its output again changes nothing.
\<close>

theorem deduplicate_files_idempotent:
  "deduplicate_files fs md5 (deduplicate_files fs md5 paths) = deduplicate_files fs md5 paths"
  by (simp add: deduplicate_files_keep keep_idem)

section \<open>Publish retry bound\<close>

lemma retry_loop_all_fail:
  assumes "\<forall>n. \<exists>e. call n = Inl e"
  shows "retry_loop call [1 ..< MAX_RETRIES + 1]
         = (None, [Attempt 1, LogAttemptFailed 1, Sleep 5, Attempt 2, LogAttemptFailed 2, Sleep 10,
                   Attempt 3, LogAttemptFailed 3, LogFailedAfterRetries])"
proof -
  obtain e1 e2 e3 where "call 1 = Inl e1" "call 2 = Inl e2" "call 3 = Inl e3"
    using assms by meson
  moreover have "[1 ..< MAX_RETRIES + 1] = [1, 2, 3]"
    by (simp add: MAX_RETRIES_def upt_rec)
  ultimately show ?thesis
    by (simp add: MAX_RETRIES_def RETRY_DELAY_def)
qed

text \<open>
  C7.  With the credentials of a platform present and a transport that fails on every
  call, each publish operation makes exactly three attempts (\<open>MAX_RETRIES\<close>), sleeps
  \<open>RETRY_DELAY\<close> times the attempt number between consecutive attempts (5 s after the
  first, 10 s after the second, nothing after the last), and returns None; no exception
  reaches the caller.
\<close>

theorem publish_retry_bound:
  assumes "\<forall>n. \<exists>e. call n = Inl e" and "\<forall>n. \<exists>e. tcall n = Inl e"
  shows "(YOUTUBE_CLIENT_ID cfg \<noteq> [] \<and> YOUTUBE_CLIENT_SECRET cfg \<noteq> [] \<and> YOUTUBE_REFRESH_TOKEN cfg \<noteq> []
            \<longrightarrow> publish_to_youtube cfg call
                = (None, [Attempt 1, LogAttemptFailed 1, Sleep (RETRY_DELAY * 1),
                          Attempt 2, LogAttemptFailed 2, Sleep (RETRY_DELAY * 2),
                          Attempt 3, LogAttemptFailed 3, LogFailedAfterRetries]))
       \<and> (INSTAGRAM_ACCESS_TOKEN cfg \<noteq> [] \<and> INSTAGRAM_PAGE_ID cfg \<noteq> []
            \<longrightarrow> publish_to_instagram cfg call
                = (None, [Attempt 1, LogAttemptFailed 1, Sleep (RETRY_DELAY * 1),
                          Attempt 2, LogAttemptFailed 2, Sleep (RETRY_DELAY * 2),
                          Attempt 3, LogAttemptFailed 3, LogFailedAfterRetries]))
       \<and> (FACEBOOK_ACCESS_TOKEN cfg \<noteq> [] \<and> FACEBOOK_PAGE_ID cfg \<noteq> []
            \<longrightarrow> publish_to_facebook cfg call
                = (None, [Attempt 1, LogAttemptFailed 1, Sleep (RETRY_DELAY * 1),
                          Attempt 2, LogAttemptFailed 2, Sleep (RETRY_DELAY * 2),
                          Attempt 3, LogAttemptFailed 3, LogFailedAfterRetries]))
       \<and> (TELEGRAM_BOT_TOKEN cfg \<noteq> [] \<and> TELEGRAM_CHANNEL_ID cfg \<noteq> []
            \<longrightarrow> publish_to_telegram cfg channel_id tcall
                = (None, [Attempt 1, LogAttemptFailed 1, Sleep (RETRY_DELAY * 1),
                          Attempt 2, LogAttemptFailed 2, Sleep (RETRY_DELAY * 2),
                          Attempt 3, LogAttemptFailed 3, LogFailedAfterRetries]))"
  using retry_loop_all_fail [OF assms(1)] retry_loop_all_fail [OF assms(2)]
  by (auto simp: publish_to_youtube_def publish_to_instagram_def publish_to_facebook_def
        publish_to_telegram_def RETRY_DELAY_def Let_def split: option.splits)

theorem publish_retry_bound_witness:
  "(\<forall>n. \<exists>e. (\<lambda>n. Inl ''ConnectionError'' :: string + string) n = Inl e)
   \<and> publish_to_youtube
        \<lparr> YOUTUBE_CLIENT_ID = ''id'', YOUTUBE_CLIENT_SECRET = ''secret'',
          YOUTUBE_REFRESH_TOKEN = ''token'', INSTAGRAM_ACCESS_TOKEN = ''ig'',
          INSTAGRAM_PAGE_ID = ''page'', FACEBOOK_ACCESS_TOKEN = ''fb'', FACEBOOK_PAGE_ID = ''page'',
          TELEGRAM_BOT_TOKEN = ''bot'', TELEGRAM_CHANNEL_ID = ''@channel'' \<rparr>
        (\<lambda>n. Inl ''ConnectionError'')
      = (None, [Attempt 1, LogAttemptFailed 1, Sleep 5, Attempt 2, LogAttemptFailed 2, Sleep 10,
                Attempt 3, LogAttemptFailed 3, LogFailedAfterRetries])
   \<and> publish_to_telegram
        \<lparr> YOUTUBE_CLIENT_ID = ''id'', YOUTUBE_CLIENT_SECRET = ''secret'',
          YOUTUBE_REFRESH_TOKEN = ''token'', INSTAGRAM_ACCESS_TOKEN = ''ig'',
          INSTAGRAM_PAGE_ID = ''page'', FACEBOOK_ACCESS_TOKEN = ''fb'', FACEBOOK_PAGE_ID = ''page'',
          TELEGRAM_BOT_TOKEN = ''bot'', TELEGRAM_CHANNEL_ID = ''@channel'' \<rparr>
        None (\<lambda>n. Inl ''ConnectionError'')
      = (None, [Attempt 1, LogAttemptFailed 1, Sleep 5, Attempt 2, LogAttemptFailed 2, Sleep 10,
                Attempt 3, LogAttemptFailed 3, LogFailedAfterRetries])"
proof -
  have h: "\<forall>n. \<exists>e. (\<lambda>n. Inl ''ConnectionError'' :: string + string) n = Inl e"
    by simp
  have ht: "\<forall>n. \<exists>e. (\<lambda>n. Inl ''ConnectionError'' :: string + int) n = Inl e"
    by simp
  from publish_retry_bound [OF h ht, where channel_id = None and cfg =
        "\<lparr> YOUTUBE_CLIENT_ID = ''id'', YOUTUBE_CLIENT_SECRET = ''secret'',
          YOUTUBE_REFRESH_TOKEN = ''token'', INSTAGRAM_ACCESS_TOKEN = ''ig'',
          INSTAGRAM_PAGE_ID = ''page'', FACEBOOK_ACCESS_TOKEN = ''fb'', FACEBOOK_PAGE_ID = ''page'',
          TELEGRAM_BOT_TOKEN = ''bot'', TELEGRAM_CHANNEL_ID = ''@channel'' \<rparr>"] h
  show ?thesis
    by (simp add: RETRY_DELAY_def)
qed

section \<open>Uniqueness in the performance table\<close>

lemma insert_or_replace_distinct:
  assumes "distinct (map unique_key (performance db))"
  shows "distinct (map unique_key (performance (insert_or_replace db pf pid day mj tp)))"
proof -
  have "distinct (map unique_key (filter (\<lambda>r. unique_key r \<noteq> (pf, pid, day)) (performance db)))"
    using assms by (rule distinct_map_filter)
  then show ?thesis
    by (auto simp: insert_or_replace_def Let_def unique_key_def)
qed

lemma store_metrics_distinct:
  assumes "distinct (map unique_key (performance db))"
  shows "distinct (map unique_key (performance (snd (store_metrics db ok today pf pid metrics tp))))"
  using assms insert_or_replace_distinct
  by (auto simp: store_metrics_def split: sum.splits)

lemma store_all_distinct:
  "distinct (map unique_key (performance db))
   \<Longrightarrow> distinct (map unique_key (performance (store_all db calls)))"
proof (induction calls arbitrary: db)
  case Nil
  then show ?case by simp
next
  case (Cons c cs)
  from Cons.prems have "distinct (map unique_key (performance (snd (store_metrics db (call_ok c)
      (call_today c) (call_platform c) (call_post_id c) (call_metrics c) (call_topic c)))))"
    by (rule store_metrics_distinct)
  then show ?case using Cons.IH by simp
qed

lemma filter_out_one:
  assumes "distinct (map f xs)" and "k \<in> f ` set xs"
  shows "Suc (length (filter (\<lambda>r. f r \<noteq> k) xs)) = length xs"
  using assms
proof (induction xs)
  case Nil
  then show ?case by simp
next
  case (Cons x xs)
  show ?case
  proof (cases "f x = k")
    case True
    with Cons.prems have "\<forall>r \<in> set xs. f r \<noteq> k" by (auto simp: image_iff)
    then have "filter (\<lambda>r. f r \<noteq> k) xs = xs" by simp
    with True show ?thesis by simp
  next
    case False
    with Cons show ?thesis by auto
  qed
qed

text \<open>
  C8.  The performance table never holds two rows with the same \<open>(platform, post_id, date)\<close>: this holds after every sequence of \<open>store_metrics\<close> calls on a fresh database,
  and the calls preserve it on any database that has it.  A successful call leaves
  exactly one row with its key, the new one, keeps the rows of other keys as they were,
  and when a row with that key was already stored the number of rows does not change.
\<close>

theorem performance_key_unique:
  "distinct (map unique_key (performance (store_all (init_db None) calls)))
   \<and> (distinct (map unique_key (performance db))
        \<longrightarrow> distinct (map unique_key (performance (store_all db calls))))
   \<and> (distinct (map unique_key (performance db))
        \<and> store_metrics db ok today pf pid metrics tp = (True, db')
        \<longrightarrow> (\<exists>mj. dumps metrics = Inr mj
                  \<and> filter (\<lambda>r. unique_key r = (pf, pid, today)) (performance db')
                      = [\<lparr> row_id = last_id db + 1, row_platform = pf, row_post_id = pid, row_date = today,
                           row_metrics_json = mj, row_topic = tp \<rparr>])
            \<and> filter (\<lambda>r. unique_key r \<noteq> (pf, pid, today)) (performance db')
                = filter (\<lambda>r. unique_key r \<noteq> (pf, pid, today)) (performance db)
            \<and> ((pf, pid, today) \<in> unique_key ` set (performance db)
                  \<longrightarrow> length (performance db') = length (performance db)))"
proof -
  have fresh: "distinct (map unique_key (performance (store_all (init_db None) calls)))"
    by (rule store_all_distinct) (simp add: init_db_def)
  have inv: "distinct (map unique_key (performance db))
        \<longrightarrow> distinct (map unique_key (performance (store_all db calls)))"
    using store_all_distinct by blast
  have overwrite:
    "(\<exists>mj. dumps metrics = Inr mj
        \<and> filter (\<lambda>r. unique_key r = (pf, pid, today)) (performance db')
            = [\<lparr> row_id = last_id db + 1, row_platform = pf, row_post_id = pid, row_date = today,
                 row_metrics_json = mj, row_topic = tp \<rparr>])
     \<and> filter (\<lambda>r. unique_key r \<noteq> (pf, pid, today)) (performance db')
         = filter (\<lambda>r. unique_key r \<noteq> (pf, pid, today)) (performance db)
     \<and> ((pf, pid, today) \<in> unique_key ` set (performance db)
           \<longrightarrow> length (performance db') = length (performance db))"
    if d: "distinct (map unique_key (performance db))"
      and s: "store_metrics db ok today pf pid metrics tp = (True, db')"
  proof -
    from s obtain mj where mj: "dumps metrics = Inr mj"
      and db': "db' = insert_or_replace db pf pid today mj tp"
      by (auto simp: store_metrics_def split: if_splits sum.splits)
    have rows: "performance db' = filter (\<lambda>r. unique_key r \<noteq> (pf, pid, today)) (performance db)
                  @ [\<lparr> row_id = last_id db + 1, row_platform = pf, row_post_id = pid, row_date = today,
                       row_metrics_json = mj, row_topic = tp \<rparr>]"
      by (simp add: db' insert_or_replace_def Let_def)
    have one: "filter (\<lambda>r. unique_key r = (pf, pid, today)) (performance db')
                = [\<lparr> row_id = last_id db + 1, row_platform = pf, row_post_id = pid, row_date = today,
                     row_metrics_json = mj, row_topic = tp \<rparr>]"
      by (simp add: rows unique_key_def)
    have others: "filter (\<lambda>r. unique_key r \<noteq> (pf, pid, today)) (performance db')
         = filter (\<lambda>r. unique_key r \<noteq> (pf, pid, today)) (performance db)"
      by (simp add: rows unique_key_def)
    have len: "length (performance db') = length (performance db)"
      if "(pf, pid, today) \<in> unique_key ` set (performance db)"
      using filter_out_one [OF d that] by (simp add: rows)
    from mj one others len show ?thesis by blast
  qed
  from fresh inv overwrite show ?thesis by blast
qed

theorem performance_key_unique_witness:
  "store_metrics
     \<lparr> performance = [\<lparr> row_id = 1, row_platform = ''youtube'', row_post_id = ''abc'', row_date = ''2024-06-01'',
                        row_metrics_json = JObj [(''views'', JInt 10)], row_topic = '''' \<rparr>],
       last_id = 1 \<rparr>
     True ''2024-06-01'' ''youtube'' ''abc'' (PDict [(''views'', PInt 25)]) ''''
   = (True, \<lparr> performance = [\<lparr> row_id = 2, row_platform = ''youtube'', row_post_id = ''abc'', row_date = ''2024-06-01'',
                        row_metrics_json = JObj [(''views'', JInt 25)], row_topic = '''' \<rparr>],
       last_id = 2 \<rparr>)
   \<and> length (performance \<lparr> performance = [\<lparr> row_id = 2, row_platform = ''youtube'', row_post_id = ''abc'', row_date = ''2024-06-01'',
                        row_metrics_json = JObj [(''views'', JInt 25)], row_topic = '''' \<rparr>],
       last_id = 2 \<rparr>) = length [\<lparr> row_id = 1, row_platform = ''youtube'', row_post_id = ''abc'', row_date = ''2024-06-01'',
                        row_metrics_json = JObj [(''views'', JInt 10)], row_topic = '''' \<rparr>]"
proof -
  let ?db = "\<lparr> performance = [\<lparr> row_id = 1, row_platform = ''youtube'', row_post_id = ''abc'', row_date = ''2024-06-01'',
                        row_metrics_json = JObj [(''views'', JInt 10)], row_topic = '''' \<rparr>],
       last_id = 1 \<rparr>"
  let ?db' = "\<lparr> performance = [\<lparr> row_id = 2, row_platform = ''youtube'', row_post_id = ''abc'', row_date = ''2024-06-01'',
                        row_metrics_json = JObj [(''views'', JInt 25)], row_topic = '''' \<rparr>],
       last_id = 2 \<rparr>"
  have d: "distinct (map unique_key (performance ?db))" by simp
  have s: "store_metrics ?db True ''2024-06-01'' ''youtube'' ''abc'' (PDict [(''views'', PInt 25)]) '''' = (True, ?db')"
    by (simp add: store_metrics_def insert_or_replace_def unique_key_def)
  have k: "(''youtube'', ''abc'', ''2024-06-01'') \<in> unique_key ` set (performance ?db)"
    by (simp add: unique_key_def)
  from performance_key_unique [of "[]" ?db True "''2024-06-01''" "''youtube''" "''abc''"
      "PDict [(''views'', PInt 25)]" "''''" ?db'] d s k
  have "length (performance ?db') = length (performance ?db)" by blast
  with s show ?thesis by simp
qed

section \<open>Scheduled-post queue round trip\<close>

lemma dict_set_fresh: "k \<notin> fst ` set d \<Longrightarrow> dict_set d k v = d @ [(k, v)]"
  by (induction d) auto

lemma dict_set_keys: "set (map fst (dict_set d k v)) = insert k (set (map fst d))"
proof (induction d)
  case Nil
  then show ?case by simp
next
  case (Cons a d)
  obtain k' v' where a: "a = (k', v')" by (cases a)
  show ?case
  proof (cases "k' = k")
    case True
    with a show ?thesis by simp
  next
    case False
    with a Cons.IH show ?thesis by (simp add: insert_commute)
  qed
qed

lemma dict_set_distinct: "distinct (map fst d) \<Longrightarrow> distinct (map fst (dict_set d k v))"
proof (induction d)
  case Nil
  then show ?case by simp
next
  case (Cons a d)
  obtain k' v' where a: "a = (k', v')" by (cases a)
  show ?case
  proof (cases "k' = k")
    case True
    with Cons.prems a show ?thesis by simp
  next
    case False
    have "k' \<notin> set (map fst (dict_set d k v))"
      using Cons.prems a False by (simp only: dict_set_keys) auto
    with Cons a False show ?thesis by simp
  qed
qed

lemma dict_set_native:
  "json_native_items d \<Longrightarrow> json_native v \<Longrightarrow> json_native_items (dict_set d k v)"
  by (induction d) auto

lemma map_of_dict_set: "map_of (dict_set d k v) k = Some v"
  by (induction d) auto

lemma loads_items_fresh:
  "distinct (map fst d @ map fst kjs)
   \<Longrightarrow> loads_items kjs d = d @ map (\<lambda>(k, j). (k, loads j)) kjs"
proof (induction kjs arbitrary: d)
  case Nil
  then show ?case by simp
next
  case (Cons a kjs)
  obtain k j where a: "a = (k, j)" by (cases a)
  from Cons.prems a have fresh: "k \<notin> fst ` set d" by auto
  from Cons.prems a have "distinct (map fst (d @ [(k, loads j)]) @ map fst kjs)" by auto
  then have "loads_items kjs (d @ [(k, loads j)])
             = (d @ [(k, loads j)]) @ map (\<lambda>(k, j). (k, loads j)) kjs"
    by (rule Cons.IH)
  with a fresh show ?case by (simp add: dict_set_fresh)
qed

lemma dumps_loads:
  "json_native v \<Longrightarrow> \<exists>j. dumps v = Inr j \<and> loads j = v"
  "json_native_list xs \<Longrightarrow> \<exists>js. dumps_list xs = Inr js \<and> loads_list js = xs"
  "json_native_items kvs \<Longrightarrow>
     \<exists>js. dumps_items kvs = Inr js \<and> map fst js = map fst kvs
          \<and> map (\<lambda>(k, j). (k, loads j)) js = kvs"
proof (induction v and xs and kvs rule: dumps_dumps_list_dumps_items.induct)
  case (7 kvs)
  then obtain js where js: "dumps_items kvs = Inr js" "map fst js = map fst kvs"
      "map (\<lambda>(k, j). (k, loads j)) js = kvs"
    by auto
  from 7 have "distinct (map fst kvs)" by simp
  with js have "loads_items js [] = [] @ map (\<lambda>(k, j). (k, loads j)) js"
    by (intro loads_items_fresh) simp
  with js show ?case by simp
qed auto

lemma loads_native:
  "json_native (loads j)"
  "json_native_list (loads_list js)"
  "distinct (map fst d) \<and> json_native_items d
     \<longrightarrow> distinct (map fst (loads_items kjs d)) \<and> json_native_items (loads_items kjs d)"
  by (induction j and js and kjs d rule: loads_loads_list_loads_items.induct)
     (auto simp: dict_set_distinct dict_set_native)

lemma load_queue_native:
  assumes "\<forall>j. QUEUE_FILE d = Some (Document j) \<longrightarrow> (\<exists>kjs. j = JObj kjs)"
  shows "\<exists>kvs. load_queue d = PDict kvs \<and> distinct (map fst kvs) \<and> json_native_items kvs"
proof (cases "QUEUE_FILE d")
  case None
  then show ?thesis by (simp add: load_queue_def)
next
  case (Some t)
  show ?thesis
  proof (cases t)
    case (Document j)
    with Some assms obtain kjs where "j = JObj kjs" by auto
    with Some Document loads_native(3) [of "[]" kjs] show ?thesis
      by (simp add: load_queue_def)
  next
    case Unparsable
    with Some show ?thesis by (simp add: load_queue_def)
  qed
qed

text \<open>
  For a content payload that JSON represents as it is, and a queue file that is missing,
  unparsable or holds a JSON object, the entry written is the entry read back.
\<close>

lemma schedule_post_json_payload:
  assumes "json_native content"
    and "\<forall>j. QUEUE_FILE d = Some (Document j) \<longrightarrow> (\<exists>kjs. j = JObj kjs)"
  shows "\<exists>d'. schedule_post d platform content timestamp isoformat
                 = Inr (platform @ ''_'' @ timestamp, d')
              \<and> queue_entry d' (platform @ ''_'' @ timestamp)
                 = Some (PDict [(''platform'', PStr platform), (''content'', content),
                                (''publish_time'', PStr isoformat), (''status'', PStr ''pending'')])"
proof -
  let ?id = "platform @ ''_'' @ timestamp"
  let ?entry = "PDict [(''platform'', PStr platform), (''content'', content),
                       (''publish_time'', PStr isoformat), (''status'', PStr ''pending'')]"
  from load_queue_native [OF assms(2)] obtain kvs where
    q: "load_queue d = PDict kvs" and dk: "distinct (map fst kvs)" and nk: "json_native_items kvs"
    by blast
  have ne: "json_native ?entry" using assms(1) by simp
  have "json_native (PDict (dict_set kvs ?id ?entry))"
    using dk nk ne by (simp only: json_native.simps dict_set_distinct dict_set_native simp_thms)
  then obtain j where j: "dumps (PDict (dict_set kvs ?id ?entry)) = Inr j"
    and lj: "loads j = PDict (dict_set kvs ?id ?entry)"
    using dumps_loads(1) by blast
  let ?d' = "d\<lparr>QUEUE_FILE := Some (Document j)\<rparr>"
  have "schedule_post d platform content timestamp isoformat = Inr (?id, ?d')"
    using q j by (simp add: schedule_post_def save_queue_def Let_def)
  moreover have "queue_entry ?d' ?id = Some ?entry"
    using lj by (simp add: queue_entry_def load_queue_def map_of_dict_set)
  ultimately show ?thesis by blast
qed

text \<open>
  C9.  The claim promises the round trip for every content payload.  The payload the
  pipeline builds (\<open>content_data\<close> with the keys title, captions, thumbnail and tags)
  carries the thumbnail as a \<open>pathlib.Path\<close>; \<open>_schedule_all\<close> passes it to
  \<open>schedule_post\<close>, where \<open>json.dumps\<close> raises TypeError.  Nothing is written, so the
  reloaded queue has no record under the key of the post.
\<close>

theorem schedule_post_path_thumbnail_raises:
  "schedule_post \<lparr> QUEUE_FILE = None \<rparr> ''youtube''
     (PDict [(''title'', PStr ''Visit Tunis''),
             (''captions'', PDict [(''youtube'', PStr ''Discover Tunis'')]),
             (''thumbnail'', PPath ''output/images/thumbnail.jpg''),
             (''tags'', PList [PStr ''#Tunis'', PStr ''#Tunisia''])])
     ''20240601_090000'' ''2024-06-01T09:00:00'' = Inl TypeError
   \<and> queue_entry \<lparr> QUEUE_FILE = None \<rparr> ''youtube_20240601_090000'' = None"
  by (simp add: schedule_post_def save_queue_def load_queue_def queue_entry_def Let_def)

section \<open>Best topic\<close>

text \<open>
  C10.  When the "ranked" entry of the trends dict is absent or an empty list,
  \<open>get_best_topic\<close> does not raise and returns the first configured location keyword;
  when it is a non-empty list, the topic of its first entry is returned.
\<close>

theorem get_best_topic_result:
  "((map_of trends ''ranked'' = None \<or> map_of trends ''ranked'' = Some (SourceList []))
      \<and> loc_keywords loc = kw # kws
      \<longrightarrow> get_best_topic loc trends = Inr (PyStr kw))
   \<and> (map_of trends ''ranked'' = Some (SourceList (first # rest)) \<and> map_of first ''topic'' = Some t
      \<longrightarrow> get_best_topic loc trends = Inr t)"
  by (auto simp: get_best_topic_def first_keyword_def)

theorem get_best_topic_result_witness:
  "map_of [(''google'', SourceList [])] ''ranked'' = None
   \<and> get_best_topic LOCATION [(''google'', SourceList [])] = Inr (PyStr ''Tunis travel'')
   \<and> get_best_topic LOCATION [(''ranked'', SourceList [])] = Inr (PyStr ''Tunis travel'')
   \<and> get_best_topic LOCATION
        [(''ranked'', SourceList [[(''topic'', PyStr ''Carthage ruins''), (''score'', PyInt 100)]])]
      = Inr (PyStr ''Carthage ruins'')"
proof -
  have k: "loc_keywords LOCATION = ''Tunis travel'' # [''Tunisia tourism'', ''visit Tunis'',
                            ''things to do in Tunis'', ''Tunis hidden gems'']"
    by (simp add: LOCATION_def)
  have a: "map_of [(''google'', SourceList [])] ''ranked'' = None" by simp
  have b: "map_of [(''ranked'', SourceList [])] ''ranked'' = Some (SourceList [])" by simp
  have c: "map_of [(''ranked'', SourceList [[(''topic'', PyStr ''Carthage ruins''), (''score'', PyInt 100)]])] ''ranked''
           = Some (SourceList ([(''topic'', PyStr ''Carthage ruins''), (''score'', PyInt 100)] # []))" by simp
  have d: "map_of [(''topic'', PyStr ''Carthage ruins''), (''score'', PyInt 100)] ''topic'' = Some (PyStr ''Carthage ruins'')"
    by simp
  from get_best_topic_result [of "[(''google'', SourceList [])]" LOCATION "''Tunis travel''" _ _ _ _] a k
  have 1: "get_best_topic LOCATION [(''google'', SourceList [])] = Inr (PyStr ''Tunis travel'')"
    by blast
  from get_best_topic_result [of "[(''ranked'', SourceList [])]" LOCATION "''Tunis travel''" _ _ _ _] b k
  have 2: "get_best_topic LOCATION [(''ranked'', SourceList [])] = Inr (PyStr ''Tunis travel'')"
    by blast
  from get_best_topic_result [of "[(''ranked'', SourceList [[(''topic'', PyStr ''Carthage ruins''), (''score'', PyInt 100)]])]" LOCATION] c d
  have 3: "get_best_topic LOCATION
        [(''ranked'', SourceList [[(''topic'', PyStr ''Carthage ruins''), (''score'', PyInt 100)]])]
      = Inr (PyStr ''Carthage ruins'')"
    by blast
  from a 1 2 3 show ?thesis by blast
qed

end
